theory Spec2Isabelle
  imports Complex_Main
begin

section \<open>The numeric core of the ring resonator animation\<close>

text \<open>
  The program is \<^verbatim>\<open>ring_resonator.py\<close>. Its only computation is the method
  \<^verbatim>\<open>transmission_function\<close> of the scene class and the lines of
  \<^verbatim>\<open>show_transmission_spectrum\<close> that sample it, convert the samples to decibels and
  hand them to the peak finder.

  Numbers. The source computes with numpy's float64. The model computes with the real
  numbers: every finite float is read as the real it denotes and every operation is the
  exact one, so rounding is not modelled. What numpy does where the exact operation has no
  value is modelled: a division by zero and a logarithm outside its domain do not raise,
  they yield \<^verbatim>\<open>inf\<close>, \<^verbatim>\<open>-inf\<close> or \<^verbatim>\<open>nan\<close>, and these values are constructors
  of the type below. Signed zeros are not modelled.
\<close>

subsection \<open>numpy values\<close>

datatype npfloat = Fin real | PInf | NInf | NaN

text \<open>
  \<^verbatim>\<open>x / y\<close> on numpy values with finite operands: the quotient when \<open>y\<close> is not zero,
  otherwise an infinity with the sign of \<open>x\<close>, and \<^verbatim>\<open>nan\<close> for \<^verbatim>\<open>0 / 0\<close>.
\<close>

definition np_div :: "real \<Rightarrow> real \<Rightarrow> npfloat" where
  "np_div x y =
     (if y \<noteq> 0 then Fin (x / y)
      else if 0 < x then PInf
      else if x < 0 then NInf
      else NaN)"

text \<open>\<^verbatim>\<open>np.cos\<close>: the cosine of a finite value, \<^verbatim>\<open>nan\<close> at an infinity and at \<^verbatim>\<open>nan\<close>.\<close>

fun np_cos :: "npfloat \<Rightarrow> npfloat" where
  "np_cos (Fin x) = Fin (cos x)"
| "np_cos PInf = NaN"
| "np_cos NInf = NaN"
| "np_cos NaN = NaN"

text \<open>
  \<^verbatim>\<open>np.log10\<close>: the logarithm of a positive finite value, \<^verbatim>\<open>-inf\<close> at zero,
  \<^verbatim>\<open>nan\<close> at a negative value, at \<^verbatim>\<open>-inf\<close> and at \<^verbatim>\<open>nan\<close>, and \<^verbatim>\<open>inf\<close> at
  \<^verbatim>\<open>inf\<close>.
\<close>

fun np_log10 :: "npfloat \<Rightarrow> npfloat" where
  "np_log10 (Fin x) = (if 0 < x then Fin (log 10 x) else if x = 0 then NInf else NaN)"
| "np_log10 PInf = PInf"
| "np_log10 NInf = NaN"
| "np_log10 NaN = NaN"

text \<open>Adding and multiplying by a finite constant, as the decibel line needs them.\<close>

fun np_add_const :: "npfloat \<Rightarrow> real \<Rightarrow> npfloat" where
  "np_add_const (Fin x) c = Fin (x + c)"
| "np_add_const PInf c = PInf"
| "np_add_const NInf c = NInf"
| "np_add_const NaN c = NaN"

fun np_scale :: "real \<Rightarrow> npfloat \<Rightarrow> npfloat" where
  "np_scale k (Fin x) = Fin (k * x)"
| "np_scale k PInf = (if 0 < k then PInf else if k < 0 then NInf else NaN)"
| "np_scale k NInf = (if 0 < k then NInf else if k < 0 then PInf else NaN)"
| "np_scale k NaN = NaN"

fun np_neg :: "npfloat \<Rightarrow> npfloat" where
  "np_neg (Fin x) = Fin (- x)"
| "np_neg PInf = NInf"
| "np_neg NInf = PInf"
| "np_neg NaN = NaN"


subsection \<open>The physical parameters\<close>

text \<open>
  The attributes that \<^verbatim>\<open>construct\<close> sets on the scene object and that the transmission
  function reads through \<^verbatim>\<open>self\<close>.
\<close>

record ResonatorParameters =
  self_n_eff :: real
  self_ring_radius :: real
  self_L :: real
  self_r :: real
  self_a :: real
  self_lambda_center :: real

definition construct :: ResonatorParameters where
  "construct =
     \<lparr> self_n_eff = 24 / 10,
       self_ring_radius = 10 / 10 ^ 6,
       self_L = 2 * pi * (10 / 10 ^ 6),
       self_r = 9 / 10,
       self_a = 95 / 100,
       self_lambda_center = 1550 / 10 ^ 9 \<rparr>"

subsection \<open>The transmission function\<close>

text \<open>
  \<^verbatim>\<open>numerator = a**2 - 2*a*r*np.cos(phi) + r**2\<close> and
  \<^verbatim>\<open>denominator = 1 - 2*a*r*np.cos(phi) + (a*r)**2\<close>, as functions of the value \<open>c\<close>
  of the cosine.
\<close>

definition numerator :: "real \<Rightarrow> real \<Rightarrow> real \<Rightarrow> real" where
  "numerator r a c = a ^ 2 - 2 * a * r * c + r ^ 2"

definition denominator :: "real \<Rightarrow> real \<Rightarrow> real \<Rightarrow> real" where
  "denominator r a c = 1 - 2 * a * r * c + (a * r) ^ 2"

text \<open>
  The body of the function below its first line: from the phase to the returned quotient.
  A cosine that is \<^verbatim>\<open>nan\<close> makes numerator, denominator and quotient \<^verbatim>\<open>nan\<close>.
\<close>

definition transmission_of_phase :: "real \<Rightarrow> real \<Rightarrow> npfloat \<Rightarrow> npfloat" where
  "transmission_of_phase r a phi =
     (case np_cos phi of
        Fin c \<Rightarrow> np_div (numerator r a c) (denominator r a c)
      | _ \<Rightarrow> NaN)"

text \<open>
  \<^verbatim>\<open>phi = 2 * np.pi * self.n_eff * self.L / wavelength\<close>. The wavelength is an element
  of a numpy array, so the division is numpy's.
\<close>

definition phase :: "ResonatorParameters \<Rightarrow> real \<Rightarrow> npfloat" where
  "phase self wavelength = np_div (2 * pi * self_n_eff self * self_L self) wavelength"

definition transmission_function :: "ResonatorParameters \<Rightarrow> real \<Rightarrow> npfloat" where
  "transmission_function self wavelength =
     (let phi = phase self wavelength;
          r = self_r self;
          a = self_a self
      in transmission_of_phase r a phi)"

subsection \<open>The formula of the specification\<close>

text \<open>
  The round-trip phase and the transfer function as the specification writes them, for the
  comparison with the code: \<open>\<phi> = 2\<pi> n L / \<lambda>\<close> and
  \<open>T(\<phi>) = (a\<^sup>2 - 2 a r cos \<phi> + r\<^sup>2) / (1 - 2 a r cos \<phi> + (a r)\<^sup>2)\<close>.
\<close>

definition spec_phase :: "real \<Rightarrow> real \<Rightarrow> real \<Rightarrow> real" where
  "spec_phase n l lam = 2 * pi * n * l / lam"

definition spec_T :: "real \<Rightarrow> real \<Rightarrow> real \<Rightarrow> npfloat" where
  "spec_T r a ph =
     np_div (a\<^sup>2 - 2 * a * r * cos ph + r\<^sup>2) (1 - 2 * a * r * cos ph + (a * r)\<^sup>2)"

subsection \<open>Sampling the spectrum\<close>

text \<open>
  \<^verbatim>\<open>np.linspace(start, stop, num)\<close>: \<open>num\<close> points from \<open>start\<close> to \<open>stop\<close>, both
  included, at the uniform step \<open>(stop - start) / (num - 1)\<close>.
\<close>

definition linspace :: "real \<Rightarrow> real \<Rightarrow> nat \<Rightarrow> real list" where
  "linspace start stop num =
     map (\<lambda>i. start + real i * ((stop - start) / real (num - 1))) [0..<num]"

text \<open>
  The first lines of \<^verbatim>\<open>show_transmission_spectrum\<close> that compute:
  \<^verbatim>\<open>lambda_range = np.linspace(1540e-9, 1560e-9, 1000)\<close>,
  \<^verbatim>\<open>transmission = self.transmission_function(lambda_range)\<close> (the function applied to
  every element of the array), \<^verbatim>\<open>lambda_nm = lambda_range * 1e9\<close> and
  \<^verbatim>\<open>transmission_dB = 10 * np.log10(transmission + 1e-10)\<close>.
\<close>

definition lambda_range :: "real list" where
  "lambda_range = linspace (1540 / 10 ^ 9) (1560 / 10 ^ 9) 1000"

definition transmission :: "ResonatorParameters \<Rightarrow> npfloat list" where
  "transmission self = map (transmission_function self) lambda_range"

definition lambda_nm :: "real list" where
  "lambda_nm = map (\<lambda>x. x * 10 ^ 9) lambda_range"

definition decibel :: "npfloat \<Rightarrow> npfloat" where
  "decibel t = np_scale 10 (np_log10 (np_add_const t (1 / 10 ^ 10)))"

definition transmission_dB :: "ResonatorParameters \<Rightarrow> npfloat list" where
  "transmission_dB self = map decibel (transmission self)"

subsection \<open>numpy comparisons\<close>

text \<open>
  \<^verbatim>\<open><\<close> and \<^verbatim>\<open><=\<close> on numpy values: the order of the reals with \<^verbatim>\<open>-inf\<close> below and
  \<^verbatim>\<open>inf\<close> above every finite value, and false whenever an operand is \<^verbatim>\<open>nan\<close>.
\<close>

fun np_less :: "npfloat \<Rightarrow> npfloat \<Rightarrow> bool" where
  "np_less (Fin x) (Fin y) = (x < y)"
| "np_less (Fin x) PInf = True"
| "np_less NInf (Fin y) = True"
| "np_less NInf PInf = True"
| "np_less _ _ = False"

fun np_le :: "npfloat \<Rightarrow> npfloat \<Rightarrow> bool" where
  "np_le (Fin x) (Fin y) = (x \<le> y)"
| "np_le (Fin x) PInf = True"
| "np_le NInf (Fin y) = True"
| "np_le NInf PInf = True"
| "np_le NInf NInf = True"
| "np_le PInf PInf = True"
| "np_le _ _ = False"

subsection \<open>Resonance detection\<close>

text \<open>
  The program finds the resonances with
  \<^verbatim>\<open>peaks_idx, _ = find_peaks(-transmission_dB, height=5, distance=20)\<close>. The routine
  \<^verbatim>\<open>find_peaks\<close> is imported from \<^verbatim>\<open>scipy.signal\<close>; its code is not part of the
  program. The definitions from \<open>local_maxima\<close> to \<open>find_peaks\<close> below model it from the
  specification, which describes a scan for local extrema, a threshold on the depth and a
  merge of peaks closer than a minimum index distance. The call itself, with its negation
  and its two constants, is the program's.
\<close>

text \<open>
  Modelled from the spec: the candidate scan of \<^verbatim>\<open>find_peaks\<close> (scipy, not in the
  program). The specification says: a sample point \<open>i\<close> is a candidate peak if its value is
  lower than both neighbours. The routine is called on the negated values, so a candidate
  is an interior index whose value is strictly greater than both neighbours; the first and
  the last sample have one neighbour only and are no candidates.
\<close>

definition local_maxima :: "npfloat list \<Rightarrow> nat list" where
  "local_maxima x =
     filter (\<lambda>i. np_less (x ! (i - 1)) (x ! i) \<and> np_less (x ! (i + 1)) (x ! i))
       [1..<length x - 1]"

text \<open>
  Modelled from the spec: the threshold of \<^verbatim>\<open>find_peaks\<close> (scipy, not in the program).
  The specification says: the minima must exceed a minimum depth. A candidate stays when
  its value is at least \<open>height\<close>.
\<close>

definition select_by_height :: "npfloat list \<Rightarrow> real \<Rightarrow> nat list \<Rightarrow> nat list" where
  "select_by_height x height peaks = filter (\<lambda>i. np_le (Fin height) (x ! i)) peaks"

text \<open>The distance between two sample indices.\<close>

definition index_distance :: "nat \<Rightarrow> nat \<Rightarrow> nat" where
  "index_distance i j = (if i \<le> j then j - i else i - j)"

text \<open>
  Modelled from the spec: the order in which \<^verbatim>\<open>find_peaks\<close> (scipy, not in the program)
  merges peaks. The specification says: of peaks closer than the minimum distance the
  deeper one is kept, with ties broken by earliest index. So the candidates are visited
  from the greatest value to the least, and among equal values from the earliest index on.
\<close>

fun insert_by_priority :: "npfloat list \<Rightarrow> nat \<Rightarrow> nat list \<Rightarrow> nat list" where
  "insert_by_priority x i [] = [i]"
| "insert_by_priority x i (j # js) =
     (if np_less (x ! i) (x ! j) then j # insert_by_priority x i js else i # j # js)"

fun priority_order :: "npfloat list \<Rightarrow> nat list \<Rightarrow> nat list" where
  "priority_order x [] = []"
| "priority_order x (i # peaks) = insert_by_priority x i (priority_order x peaks)"

text \<open>
  Modelled from the spec: the merge of \<^verbatim>\<open>find_peaks\<close> (scipy, not in the program). The
  specification says: peaks are separated by at least a minimum index distance, and
  duplicate peaks closer than that are merged by keeping the deeper one. A visited
  candidate is kept when every peak kept so far is at least \<open>d\<close> indices away, and is
  dropped otherwise.
\<close>

fun select_by_distance :: "nat \<Rightarrow> nat list \<Rightarrow> nat list \<Rightarrow> nat list" where
  "select_by_distance d [] kept = kept"
| "select_by_distance d (i # queue) kept =
     (if list_all (\<lambda>k. d \<le> index_distance i k) kept
      then select_by_distance d queue (i # kept)
      else select_by_distance d queue kept)"

text \<open>
  Modelled from the spec: \<^verbatim>\<open>find_peaks(x, height, distance)\<close> (scipy, not in the
  program). The specification says: it returns an ordered sequence sorted by wavelength
  ascending. The result is the candidates that were kept, in the order of their indices.
\<close>

definition find_peaks :: "npfloat list \<Rightarrow> real \<Rightarrow> nat \<Rightarrow> nat list" where
  "find_peaks x height distance =
     (let peaks = select_by_height x height (local_maxima x);
          kept = select_by_distance distance (priority_order x peaks) []
      in filter (\<lambda>i. i \<in> set kept) peaks)"

text \<open>
  The program's line, as a function of the array \<^verbatim>\<open>transmission_dB\<close>:
  \<^verbatim>\<open>peaks_idx, _ = find_peaks(-transmission_dB, height=5, distance=20)\<close>.
\<close>

definition peaks_idx :: "npfloat list \<Rightarrow> nat list" where
  "peaks_idx dB = find_peaks (map np_neg dB) 5 20"

section \<open>Properties of numerator and denominator\<close>
lemma denominator_split:
  "denominator r a c = (1 - a * r)\<^sup>2 + 2 * a * r * (1 - c)"
  by (simp add: denominator_def power2_eq_square algebra_simps)

lemma numerator_split:
  "numerator r a c = (a - r)\<^sup>2 + 2 * a * r * (1 - c)"
  by (simp add: numerator_def power2_eq_square algebra_simps)


lemma denominator_lower:
  assumes "0 \<le> a * r" "c \<le> 1"
  shows "(1 - a * r)\<^sup>2 \<le> denominator r a c"
proof -
  have "0 \<le> 2 * (a * r) * (1 - c)" using assms by simp
  then show ?thesis by (simp add: denominator_split mult.assoc)
qed





section \<open>Unfolding the transmission function\<close>

lemma phase_nonzero:
  "lam \<noteq> 0 \<Longrightarrow> phase self lam = Fin (2 * pi * self_n_eff self * self_L self / lam)"
  by (simp add: phase_def np_div_def)

lemma phase_zero: "phase self 0 \<noteq> Fin x"
  by (simp add: phase_def np_div_def)

lemma transmission_of_phase_Fin:
  "transmission_of_phase r a (Fin ph) = np_div (numerator r a (cos ph)) (denominator r a (cos ph))"
  by (simp add: transmission_of_phase_def)

lemma transmission_function_nonzero:
  "lam \<noteq> 0 \<Longrightarrow> transmission_function self lam =
     np_div (numerator (self_r self) (self_a self) (cos (2 * pi * self_n_eff self * self_L self / lam)))
            (denominator (self_r self) (self_a self) (cos (2 * pi * self_n_eff self * self_L self / lam)))"
  by (simp add: transmission_function_def phase_nonzero transmission_of_phase_Fin)

lemma transmission_function_zero: "transmission_function self 0 = NaN"
  by (simp add: transmission_function_def phase_def np_div_def transmission_of_phase_def)


lemma lambda_range_positive: "w \<in> set lambda_range \<Longrightarrow> 0 < w"
  by (auto simp: lambda_range_def linspace_def intro!: add_pos_nonneg)

lemma length_lambda_range: "length lambda_range = 1000"
  by (simp add: lambda_range_def linspace_def)

text \<open>The wavelengths of the program's sample ascend, as the claim about resonance
  detection asks of a sample.\<close>

lemma sorted_lambda_nm: "sorted_wrt (<) lambda_nm"
proof -
  have "sorted_wrt (\<lambda>i j. (1540 / 10 ^ 9 + real i * ((1560 / 10 ^ 9 - 1540 / 10 ^ 9) / real (1000 - 1))) * 10 ^ 9
          < (1540 / 10 ^ 9 + real j * ((1560 / 10 ^ 9 - 1540 / 10 ^ 9) / real (1000 - 1))) * (10 ^ 9 :: real))
        [0..<1000]"
    by (rule sorted_wrt_mono_rel[OF _ sorted_wrt_upt]) simp
  then show ?thesis
    by (simp only: lambda_nm_def lambda_range_def linspace_def sorted_wrt_map)
qed

lemma length_lambda_nm: "length lambda_nm = 1000"
  by (simp add: lambda_nm_def lambda_range_def linspace_def)

section \<open>Properties of the peak finder\<close>

lemma set_insert_by_priority: "set (insert_by_priority x i js) = insert i (set js)"
  by (induction js) auto

lemma set_priority_order: "set (priority_order x peaks) = set peaks"
  by (induction peaks) (simp_all add: set_insert_by_priority)

lemma index_distance_sym: "index_distance i j = index_distance j i"
  by (simp add: index_distance_def)

lemma select_by_distance_keeps: "set kept \<subseteq> set (select_by_distance d queue kept)"
proof (induction queue arbitrary: kept)
  case Nil
  show ?case by simp
next
  case (Cons i queue)
  show ?case
  proof (cases "list_all (\<lambda>k. d \<le> index_distance i k) kept")
    case True
    with Cons[of "i # kept"] show ?thesis by auto
  next
    case False
    with Cons[of kept] show ?thesis by simp
  qed
qed

lemma select_by_distance_subset:
  "set (select_by_distance d queue kept) \<subseteq> set queue \<union> set kept"
proof (induction queue arbitrary: kept)
  case Nil
  show ?case by simp
next
  case (Cons i queue)
  show ?case
  proof (cases "list_all (\<lambda>k. d \<le> index_distance i k) kept")
    case True
    with Cons[of "i # kept"] show ?thesis by auto
  next
    case False
    with Cons[of kept] show ?thesis by auto
  qed
qed

lemma select_by_distance_separated:
  assumes "\<forall>a\<in>set kept. \<forall>b\<in>set kept. a \<noteq> b \<longrightarrow> d \<le> index_distance a b"
  shows "\<forall>a\<in>set (select_by_distance d queue kept).
           \<forall>b\<in>set (select_by_distance d queue kept). a \<noteq> b \<longrightarrow> d \<le> index_distance a b"
  using assms
proof (induction queue arbitrary: kept)
  case Nil
  then show ?case by simp
next
  case (Cons i queue)
  show ?case
  proof (cases "list_all (\<lambda>k. d \<le> index_distance i k) kept")
    case True
    then have far: "\<forall>k\<in>set kept. d \<le> index_distance i k" by (simp add: list_all_iff)
    have "\<forall>a\<in>set (i # kept). \<forall>b\<in>set (i # kept). a \<noteq> b \<longrightarrow> d \<le> index_distance a b"
    proof (intro ballI impI)
      fix a b assume ab: "a \<in> set (i # kept)" "b \<in> set (i # kept)" "a \<noteq> b"
      show "d \<le> index_distance a b"
      proof (cases "a = i")
        case True
        with ab far show ?thesis by auto
      next
        case False
        note na = this
        show ?thesis
        proof (cases "b = i")
          case True
          with ab na far index_distance_sym[of a i] show ?thesis by auto
        next
          case False
          with na ab Cons.prems show ?thesis by auto
        qed
      qed
    qed
    from Cons.IH[OF this] True show ?thesis by simp
  next
    case False
    with Cons.IH[OF Cons.prems] show ?thesis by simp
  qed
qed

lemma select_by_distance_maximal:
  assumes "i \<in> set queue"
      and "\<forall>k\<in>set (select_by_distance d queue kept). k \<noteq> i \<longrightarrow> d \<le> index_distance i k"
  shows "i \<in> set (select_by_distance d queue kept)"
  using assms
proof (induction queue arbitrary: kept)
  case Nil
  then show ?case by simp
next
  case (Cons q queue)
  show ?case
  proof (cases "list_all (\<lambda>k. d \<le> index_distance q k) kept")
    case True
    note t = this
    show ?thesis
    proof (cases "i = q")
      case True
      have "q \<in> set (select_by_distance d queue (q # kept))"
        using select_by_distance_keeps[of "q # kept" d queue] by auto
      with t True show ?thesis by simp
    next
      case False
      with Cons.prems(1) have "i \<in> set queue" by simp
      moreover from Cons.prems(2) t
      have "\<forall>k\<in>set (select_by_distance d queue (q # kept)). k \<noteq> i \<longrightarrow> d \<le> index_distance i k"
        by simp
      ultimately have "i \<in> set (select_by_distance d queue (q # kept))" by (rule Cons.IH)
      with t show ?thesis by simp
    qed
  next
    case False
    note f = this
    show ?thesis
    proof (cases "i = q")
      case True
      from f obtain k where k: "k \<in> set kept" "\<not> d \<le> index_distance q k"
        by (auto simp: list_all_iff)
      have kin: "k \<in> set (select_by_distance d queue kept)"
        using select_by_distance_keeps[of kept d queue] k(1) by auto
      show ?thesis
      proof (cases "k = i")
        case True
        with kin f show ?thesis by simp
      next
        case False
        with Cons.prems(2) f kin have "d \<le> index_distance i k" by simp
        with k(2) True show ?thesis by simp
      qed
    next
      case False
      with Cons.prems(1) have "i \<in> set queue" by simp
      moreover from Cons.prems(2) f
      have "\<forall>k\<in>set (select_by_distance d queue kept). k \<noteq> i \<longrightarrow> d \<le> index_distance i k"
        by simp
      ultimately have "i \<in> set (select_by_distance d queue kept)" by (rule Cons.IH)
      with f show ?thesis by simp
    qed
  qed
qed

lemma set_find_peaks:
  "set (find_peaks x h d) =
     set (select_by_distance d (priority_order x (select_by_height x h (local_maxima x))) [])"
proof -
  let ?peaks = "select_by_height x h (local_maxima x)"
  have "set (select_by_distance d (priority_order x ?peaks) []) \<subseteq> set ?peaks"
    using select_by_distance_subset[of d "priority_order x ?peaks" "[]"]
    by (simp add: set_priority_order)
  then show ?thesis by (auto simp: find_peaks_def Let_def)
qed

lemma sorted_find_peaks: "sorted_wrt (<) (find_peaks x h d)"
  by (simp add: find_peaks_def Let_def select_by_height_def local_maxima_def sorted_wrt_filter)

lemma candidate_iff:
  "i \<in> set (select_by_height x h (local_maxima x)) \<longleftrightarrow>
     0 < i \<and> i + 1 < length x \<and> np_less (x ! (i - 1)) (x ! i) \<and> np_less (x ! (i + 1)) (x ! i)
       \<and> np_le (Fin h) (x ! i)"
  by (auto simp: select_by_height_def local_maxima_def)

lemma find_peaks_iff:
  "i \<in> set (find_peaks x h d) \<longleftrightarrow>
     i \<in> set (select_by_height x h (local_maxima x)) \<and>
     (\<forall>j\<in>set (find_peaks x h d). j \<noteq> i \<longrightarrow> d \<le> index_distance i j)"
proof -
  let ?peaks = "select_by_height x h (local_maxima x)"
  let ?K = "set (select_by_distance d (priority_order x ?peaks) [])"
  have sub: "?K \<subseteq> set ?peaks"
    using select_by_distance_subset[of d "priority_order x ?peaks" "[]"]
    by (simp add: set_priority_order)
  have sep: "\<forall>a\<in>?K. \<forall>b\<in>?K. a \<noteq> b \<longrightarrow> d \<le> index_distance a b"
    by (rule select_by_distance_separated) simp
  show ?thesis
  proof
    assume "i \<in> set (find_peaks x h d)"
    then have iK: "i \<in> ?K" by (simp add: set_find_peaks)
    with sub sep show "i \<in> set ?peaks \<and>
        (\<forall>j\<in>set (find_peaks x h d). j \<noteq> i \<longrightarrow> d \<le> index_distance i j)"
      by (auto simp: set_find_peaks)
  next
    assume a: "i \<in> set ?peaks \<and>
        (\<forall>j\<in>set (find_peaks x h d). j \<noteq> i \<longrightarrow> d \<le> index_distance i j)"
    then have "i \<in> set (priority_order x ?peaks)" by (simp add: set_priority_order)
    moreover from a have "\<forall>k\<in>?K. k \<noteq> i \<longrightarrow> d \<le> index_distance i k"
      by (simp add: set_find_peaks)
    ultimately have "i \<in> ?K" by (rule select_by_distance_maximal)
    then show "i \<in> set (find_peaks x h d)" by (simp add: set_find_peaks)
  qed
qed

lemma neg_decibel_Fin:
  assumes "0 \<le> t"
  shows "np_neg (decibel (Fin t)) = Fin (- (10 * log 10 (t + 1 / 10 ^ 10)))"
proof -
  have "0 < t + 1 / 10 ^ 10" using assms by (intro add_nonneg_pos) simp_all
  then show ?thesis by (simp add: decibel_def)
qed

lemma neg_decibel_less:
  assumes "0 \<le> s" "0 \<le> t"
  shows "np_less (np_neg (decibel (Fin s))) (np_neg (decibel (Fin t))) \<longleftrightarrow> t < s"
proof -
  have s: "0 < s + 1 / 10 ^ 10" using assms by (intro add_nonneg_pos) simp_all
  have t: "0 < t + 1 / 10 ^ 10" using assms by (intro add_nonneg_pos) simp_all
  have "log 10 (t + 1 / 10 ^ 10) < log 10 (s + 1 / 10 ^ 10) \<longleftrightarrow> t + 1 / 10 ^ 10 < s + 1 / 10 ^ 10"
    using s t by (intro log_less_cancel_iff) simp_all
  then show ?thesis
    using assms by (simp add: neg_decibel_Fin)
qed

lemma neg_decibel_height:
  assumes "0 \<le> t"
  shows "np_le (Fin 5) (np_neg (decibel (Fin t))) \<longleftrightarrow> 10 * log 10 (t + 1 / 10 ^ 10) \<le> - 5"
  using assms by (auto simp: neg_decibel_Fin)

section \<open>The claims about the transmission function\<close>

text \<open>
  Claim C1. For every wavelength \<open>\<lambda> > 0\<close> the transmission function computes the round-trip
  phase \<open>\<phi> = 2\<pi> n\<^sub>e\<^sub>f\<^sub>f L / \<lambda>\<close> and returns exactly the quotient
  \<open>T(\<phi>) = (a\<^sup>2 - 2 a r cos \<phi> + r\<^sup>2) / (1 - 2 a r cos \<phi> + (a r)\<^sup>2)\<close>, with the
  parameters read from the record. The quotient is numpy's, as in the code.
\<close>

theorem transmission_function_formula:
  assumes "0 < lam"
  shows "phase self lam = Fin (spec_phase (self_n_eff self) (self_L self) lam) \<and>
         transmission_function self lam =
           spec_T (self_r self) (self_a self) (spec_phase (self_n_eff self) (self_L self) lam)"
  using assms
  by (simp add: transmission_function_nonzero phase_nonzero spec_phase_def spec_T_def
      numerator_def denominator_def)

theorem transmission_function_formula_witness:
  "(0::real) < 1 \<and>
   transmission_function
     \<lparr> self_n_eff = 1, self_ring_radius = 1, self_L = 1, self_r = 9 / 10, self_a = 95 / 100,
       self_lambda_center = 1 \<rparr> 1 = Fin (100 / 841)"
  using transmission_function_formula
    [of 1 "\<lparr> self_n_eff = 1, self_ring_radius = 1, self_L = 1, self_r = 9 / 10,
             self_a = 95 / 100, self_lambda_center = 1 \<rparr>"]
  by (simp add: spec_T_def spec_phase_def np_div_def power2_eq_square)



text \<open>
  Claim C3, as the specification states it, fails: on the degenerate input \<open>a r = 1\<close> with
  \<open>cos \<phi> = 1\<close> the function has no guard branch and does not return 0. With
  \<open>r = a = 1\<close> the denominator is zero and the result is \<^verbatim>\<open>nan\<close>, both at the phase
  \<open>2\<pi>\<close> (effective index, length and wavelength all 1) and at the phase 0 itself
  (effective index 0).
\<close>

theorem degenerate_input_counterexample:
  "denominator 1 1 (cos (2 * pi)) = 0 \<and>
   transmission_function
     \<lparr> self_n_eff = 1, self_ring_radius = 1, self_L = 1, self_r = 1, self_a = 1,
       self_lambda_center = 1 \<rparr> 1 = NaN \<and>
   transmission_function
     \<lparr> self_n_eff = 1, self_ring_radius = 1, self_L = 1, self_r = 1, self_a = 1,
       self_lambda_center = 1 \<rparr> 1 \<noteq> Fin 0 \<and>
   phase \<lparr> self_n_eff = 0, self_ring_radius = 1, self_L = 1, self_r = 1, self_a = 1,
       self_lambda_center = 1 \<rparr> 1 = Fin 0 \<and>
   transmission_function
     \<lparr> self_n_eff = 0, self_ring_radius = 1, self_L = 1, self_r = 1, self_a = 1,
       self_lambda_center = 1 \<rparr> 1 = NaN"
  by (simp add: transmission_function_def phase_def np_div_def transmission_of_phase_def
      numerator_def denominator_def)

text \<open>
  Claim C3, amended. On the degenerate input where \<open>a r = 1\<close> and the cosine of the phase
  is 1, the denominator is zero and the function divides by it all the same: it returns
  \<^verbatim>\<open>nan\<close> when \<open>a = r\<close> (the numerator is zero too) and \<^verbatim>\<open>inf\<close> otherwise.
\<close>

theorem degenerate_input_unguarded:
  assumes "self_a self * self_r self = 1" "phase self lam = Fin ph" "cos ph = 1"
  shows "denominator (self_r self) (self_a self) (cos ph) = 0 \<and>
         transmission_function self lam = (if self_a self = self_r self then NaN else PInf)"
proof -
  let ?r = "self_r self" and ?a = "self_a self"
  have d: "denominator ?r ?a (cos ph) = 0"
    using assms by (simp add: denominator_split mult.assoc)
  have n: "numerator ?r ?a (cos ph) = (?a - ?r)\<^sup>2"
    using assms by (simp add: numerator_split)
  have "0 < (?a - ?r)\<^sup>2" if "?a \<noteq> ?r" using that by simp
  with d n have "np_div (numerator ?r ?a (cos ph)) (denominator ?r ?a (cos ph))
      = (if ?a = ?r then NaN else PInf)"
    by (simp add: np_div_def)
  with d assms(2) show ?thesis
    by (simp add: transmission_function_def transmission_of_phase_Fin)
qed

theorem degenerate_input_unguarded_witness:
  "transmission_function
     \<lparr> self_n_eff = 1, self_ring_radius = 1, self_L = 1, self_r = 1 / 2, self_a = 2,
       self_lambda_center = 1 \<rparr> 1 = PInf"
  using degenerate_input_unguarded
    [of "\<lparr> self_n_eff = 1, self_ring_radius = 1, self_L = 1, self_r = 1 / 2, self_a = 2,
       self_lambda_center = 1 \<rparr>" 1 "2 * pi"]
  by (simp add: phase_def np_div_def)

text \<open>
  Claim C4, as the specification states it, fails: the function validates nothing. A
  negative wavelength, a self-coupling of 2 and a round-trip amplitude of -1 each give a
  finite number.
\<close>

theorem out_of_range_counterexample:
  "transmission_function
     \<lparr> self_n_eff = 1, self_ring_radius = 1, self_L = 1, self_r = 9 / 10, self_a = 95 / 100,
       self_lambda_center = 1 \<rparr> (- 1) = Fin (100 / 841) \<and>
   transmission_function
     \<lparr> self_n_eff = 1, self_ring_radius = 1, self_L = 1, self_r = 2, self_a = 9 / 10,
       self_lambda_center = 1 \<rparr> 1 = Fin (121 / 64) \<and>
   transmission_function
     \<lparr> self_n_eff = 1, self_ring_radius = 1, self_L = 1, self_r = 9 / 10, self_a = - 1,
       self_lambda_center = 1 \<rparr> 1 = Fin (1 / 1)"
  by (simp add: transmission_function_def phase_def np_div_def transmission_of_phase_def
      numerator_def denominator_def power2_eq_square)

text \<open>
  Claim C4, amended. For an out-of-range input (a negative wavelength, or \<open>r\<close> or \<open>a\<close>
  outside \<open>[0, 1]\<close>) the function raises no error: it returns the numpy value of the same
  formula as for any other input, and \<^verbatim>\<open>nan\<close> at the wavelength 0.
\<close>

theorem out_of_range_unvalidated:
  assumes "lam < 0 \<or> self_r self < 0 \<or> 1 < self_r self \<or> self_a self < 0 \<or> 1 < self_a self"
  shows "transmission_function self lam =
           (if lam = 0 then NaN
            else spec_T (self_r self) (self_a self)
                   (spec_phase (self_n_eff self) (self_L self) lam))"
  by (simp add: transmission_function_zero transmission_function_nonzero spec_T_def
      spec_phase_def numerator_def denominator_def)

theorem out_of_range_unvalidated_witness:
  "transmission_function
     \<lparr> self_n_eff = 1, self_ring_radius = 1, self_L = 1, self_r = 2, self_a = 9 / 10,
       self_lambda_center = 1 \<rparr> (- 1) = Fin (121 / 64)"
  using out_of_range_unvalidated
    [of "- 1" "\<lparr> self_n_eff = 1, self_ring_radius = 1, self_L = 1, self_r = 2, self_a = 9 / 10,
       self_lambda_center = 1 \<rparr>"]
  by (simp add: spec_T_def spec_phase_def np_div_def power2_eq_square)





text \<open>
  Claim C8. The transmission is periodic in the phase with period \<open>2\<pi>\<close>: computed from
  \<open>\<phi> + 2\<pi>\<close> it equals the transmission computed from \<open>\<phi>\<close>, for all parameters.
\<close>

theorem transmission_periodic:
  "transmission_of_phase r a (Fin (ph + 2 * pi)) = transmission_of_phase r a (Fin ph)"
  by (simp add: transmission_of_phase_Fin)

text \<open>
  Claim C9. With the parameters that \<^verbatim>\<open>construct\<close> sets, \<open>r = 0.9\<close> and \<open>a = 0.95\<close>,
  the denominator is at least \<open>(1 - a r)\<^sup>2 > 0\<close> for every wavelength \<open>\<lambda> > 0\<close>, so the
  division yields a finite quotient. The only call passes the array \<^verbatim>\<open>lambda_range\<close>,
  whose elements are all positive, so every sample of the program is finite.
\<close>

theorem construct_denominator_positive:
  "(0 < lam \<longrightarrow>
      (\<exists>ph. phase construct lam = Fin ph \<and>
         0 < (1 - self_a construct * self_r construct)\<^sup>2 \<and>
         (1 - self_a construct * self_r construct)\<^sup>2
            \<le> denominator (self_r construct) (self_a construct) (cos ph) \<and>
         transmission_function construct lam =
           Fin (numerator (self_r construct) (self_a construct) (cos ph) /
                denominator (self_r construct) (self_a construct) (cos ph)))) \<and>
   (\<forall>w \<in> set lambda_range. 0 < w) \<and>
   (\<forall>v \<in> set (transmission construct). \<exists>t. v = Fin t)"
proof -
  have ra: "self_r construct = 9 / 10" "self_a construct = 95 / 100"
    by (simp_all add: construct_def)
  have low: "(1 - self_a construct * self_r construct)\<^sup>2 \<le>
       denominator (self_r construct) (self_a construct) (cos ph)" for ph
    by (rule denominator_lower) (simp_all add: ra)
  have pos: "0 < (1 - self_a construct * self_r construct)\<^sup>2"
    by (simp add: ra)
  have fin: "transmission_function construct lam =
           Fin (numerator (self_r construct) (self_a construct) (cos ph) /
                denominator (self_r construct) (self_a construct) (cos ph))"
    if "phase construct lam = Fin ph" for lam ph
  proof -
    have "denominator (self_r construct) (self_a construct) (cos ph) \<noteq> 0"
      using low[of ph] pos by linarith
    then show ?thesis using that
      by (simp add: transmission_function_def transmission_of_phase_Fin np_div_def)
  qed
  have one: "\<exists>ph. phase construct lam = Fin ph \<and>
         0 < (1 - self_a construct * self_r construct)\<^sup>2 \<and>
         (1 - self_a construct * self_r construct)\<^sup>2
            \<le> denominator (self_r construct) (self_a construct) (cos ph) \<and>
         transmission_function construct lam =
           Fin (numerator (self_r construct) (self_a construct) (cos ph) /
                denominator (self_r construct) (self_a construct) (cos ph))"
    if "0 < lam" for lam
  proof -
    from that have "phase construct lam
        = Fin (2 * pi * self_n_eff construct * self_L construct / lam)"
      by (simp add: phase_nonzero)
    with low pos fin show ?thesis by blast
  qed
  have "\<exists>t. v = Fin t" if "v \<in> set (transmission construct)" for v
  proof -
    from that obtain w where "w \<in> set lambda_range" "v = transmission_function construct w"
      by (auto simp: transmission_def)
    with one[of w] lambda_range_positive[of w] show ?thesis by auto
  qed
  with one lambda_range_positive show ?thesis by blast
qed

theorem construct_denominator_positive_witness:
  "(0::real) < 1540 / 10 ^ 9 \<and> 1540 / 10 ^ 9 \<in> set lambda_range \<and>
   (\<exists>t. transmission_function construct (1540 / 10 ^ 9) = Fin t) \<and>
   transmission_function construct (1540 / 10 ^ 9) \<in> set (transmission construct)"
proof -
  have m: "(1540 / 10 ^ 9 :: real) \<in> set lambda_range"
    unfolding lambda_range_def linspace_def by (simp add: image_iff)
  then have v: "transmission_function construct (1540 / 10 ^ 9) \<in> set (transmission construct)"
    by (simp add: transmission_def)
  from construct_denominator_positive[of "1540 / 10 ^ 9"] m v show ?thesis by auto
qed

section \<open>The claim about the decibel conversion\<close>

text \<open>
  Claim C10. The conversion to decibels adds \<open>10\<^sup>-\<^sup>1\<^sup>0\<close> before the logarithm, so for a
  sample whose transmission is a non-negative number the argument of the logarithm is
  strictly positive and the conversion yields the finite value
  \<open>10 log\<^sub>1\<^sub>0 (t + 10\<^sup>-\<^sup>1\<^sup>0)\<close>.
\<close>

theorem decibel_total:
  assumes "0 \<le> t"
  shows "np_add_const (Fin t) (1 / 10 ^ 10) = Fin (t + 1 / 10 ^ 10) \<and>
         0 < t + 1 / 10 ^ 10 \<and>
         decibel (Fin t) = Fin (10 * log 10 (t + 1 / 10 ^ 10))"
proof -
  have "0 < t + 1 / 10 ^ 10" using assms by (intro add_nonneg_pos) simp_all
  then show ?thesis by (simp add: decibel_def)
qed

theorem decibel_total_witness:
  "(0::real) \<le> 0 \<and> decibel (Fin 0) = Fin (- 100)"
proof -
  have a: "log 10 ((10::real) ^ 10) = real 10 * log 10 10"
    by (rule log_nat_power) simp
  have b: "log 10 (1 / (10::real) ^ 10) = log 10 1 - log 10 (10 ^ 10)"
    by (rule log_divide_pos) simp_all
  from a b decibel_total[of 0] show ?thesis by simp
qed

section \<open>The claim about resonance detection\<close>

text \<open>
  Claim C5. For every sample of the spectrum (transmissions non-negative, wavelengths in
  ascending order), resonance detection returns exactly the sample points that are local
  minima of the transmission, whose value on the decibel scale is \<open>-5\<close> or lower, and that
  are at least 20 indices away from every other returned peak; the returned indices
  ascend, and so do their wavelengths. The peak finder is modelled from the specification;
  the characterisation says that the result is a choice of pairwise separated candidates
  that no further candidate can join, whichever candidate the merge prefers.
\<close>

theorem resonance_detection_exact:
  assumes "\<forall>t\<in>set ts. 0 \<le> t"
      and "length ws = length ts"
      and "sorted_wrt (<) ws"
  shows "(\<forall>i. i \<in> set (peaks_idx (map decibel (map Fin ts))) \<longleftrightarrow>
            0 < i \<and> i + 1 < length ts \<and>
            ts ! i < ts ! (i - 1) \<and> ts ! i < ts ! (i + 1) \<and>
            10 * log 10 (ts ! i + 1 / 10 ^ 10) \<le> - 5 \<and>
            (\<forall>j\<in>set (peaks_idx (map decibel (map Fin ts))). j \<noteq> i \<longrightarrow> 20 \<le> index_distance i j)) \<and>
         sorted_wrt (<) (peaks_idx (map decibel (map Fin ts))) \<and>
         sorted_wrt (<) (map (\<lambda>i. ws ! i) (peaks_idx (map decibel (map Fin ts))))"
proof -
  let ?x = "map np_neg (map decibel (map Fin ts))"
  let ?S = "peaks_idx (map decibel (map Fin ts))"
  have S: "?S = find_peaks ?x 5 20" by (simp add: peaks_idx_def)
  have nth: "?x ! k = np_neg (decibel (Fin (ts ! k)))" if "k < length ts" for k
    using that by simp
  have nn: "0 \<le> ts ! k" if "k < length ts" for k
    using that assms(1) by simp
  have cand: "i \<in> set (select_by_height ?x 5 (local_maxima ?x)) \<longleftrightarrow>
      0 < i \<and> i + 1 < length ts \<and> ts ! i < ts ! (i - 1) \<and> ts ! i < ts ! (i + 1) \<and>
      10 * log 10 (ts ! i + 1 / 10 ^ 10) \<le> - 5" for i
  proof (cases "0 < i \<and> i + 1 < length ts")
    case True
    then have k: "i - 1 < length ts" "i < length ts" "i + 1 < length ts" by auto
    have len: "length ?x = length ts" by simp
    have a: "np_less (?x ! (i - 1)) (?x ! i) \<longleftrightarrow> ts ! i < ts ! (i - 1)"
      by (simp only: nth[OF k(1)] nth[OF k(2)] neg_decibel_less[OF nn[OF k(1)] nn[OF k(2)]])
    have b: "np_less (?x ! (i + 1)) (?x ! i) \<longleftrightarrow> ts ! i < ts ! (i + 1)"
      by (simp only: nth[OF k(3)] nth[OF k(2)] neg_decibel_less[OF nn[OF k(3)] nn[OF k(2)]])
    have c: "np_le (Fin 5) (?x ! i) \<longleftrightarrow> 10 * log 10 (ts ! i + 1 / 10 ^ 10) \<le> - 5"
      by (simp only: nth[OF k(2)] neg_decibel_height[OF nn[OF k(2)]])
    from True a b c show ?thesis unfolding candidate_iff len by blast
  next
    case False
    then show ?thesis by (auto simp: candidate_iff)
  qed
  have one: "\<forall>i. i \<in> set ?S \<longleftrightarrow>
            0 < i \<and> i + 1 < length ts \<and>
            ts ! i < ts ! (i - 1) \<and> ts ! i < ts ! (i + 1) \<and>
            10 * log 10 (ts ! i + 1 / 10 ^ 10) \<le> - 5 \<and>
            (\<forall>j\<in>set ?S. j \<noteq> i \<longrightarrow> 20 \<le> index_distance i j)"
  proof
    fix i
    show "i \<in> set ?S \<longleftrightarrow>
            0 < i \<and> i + 1 < length ts \<and>
            ts ! i < ts ! (i - 1) \<and> ts ! i < ts ! (i + 1) \<and>
            10 * log 10 (ts ! i + 1 / 10 ^ 10) \<le> - 5 \<and>
            (\<forall>j\<in>set ?S. j \<noteq> i \<longrightarrow> 20 \<le> index_distance i j)"
      unfolding S using find_peaks_iff[of i ?x 5 20] cand[of i] by blast
  qed
  have two: "sorted_wrt (<) ?S" unfolding S by (rule sorted_find_peaks)
  have inr: "j < length ws" if "j \<in> set ?S" for j
  proof -
    from one that have "j + 1 < length ts" by blast
    with assms(2) show ?thesis by simp
  qed
  have three: "sorted_wrt (<) (map (\<lambda>i. ws ! i) ?S)"
    unfolding sorted_wrt_map
  proof (rule sorted_wrt_mono_rel[OF _ two])
    fix a b assume "a \<in> set ?S" "b \<in> set ?S" "a < b"
    with inr[of b] show "ws ! a < ws ! b"
      using sorted_wrt_nth_less[OF assms(3), of a b] by simp
  qed
  from one two three show ?thesis by blast
qed

theorem resonance_detection_exact_witness:
  "peaks_idx (map decibel (map Fin [1, 0, 1])) = [1] \<and>
   map (\<lambda>i. [1540, 1550, 1560 :: real] ! i) (peaks_idx (map decibel (map Fin [1, 0, 1]))) = [1550]"
proof -
  let ?ts = "[1, 0, 1 :: real]"
  let ?ws = "[1540, 1550, 1560 :: real]"
  let ?S = "peaks_idx (map decibel (map Fin ?ts))"
  have h1: "\<forall>t\<in>set ?ts. 0 \<le> t" by simp
  have h2: "length ?ws = length ?ts" by simp
  have h3: "sorted_wrt (<) ?ws" by simp
  note main = resonance_detection_exact[OF h1 h2 h3]
  from main have iff: "i \<in> set ?S \<longleftrightarrow>
            0 < i \<and> i + 1 < length ?ts \<and>
            ?ts ! i < ?ts ! (i - 1) \<and> ?ts ! i < ?ts ! (i + 1) \<and>
            10 * log 10 (?ts ! i + 1 / 10 ^ 10) \<le> - 5 \<and>
            (\<forall>j\<in>set ?S. j \<noteq> i \<longrightarrow> 20 \<le> index_distance i j)" for i
    by blast
  from main have srt: "sorted_wrt (<) ?S" by blast
  have only: "j = 1" if "j \<in> set ?S" for j
  proof -
    from iff[of j] that have "0 < j \<and> j + 1 < length ?ts" by blast
    then show ?thesis by simp
  qed
  have a: "log 10 ((10::real) ^ 10) = real 10 * log 10 10"
    by (rule log_nat_power) simp
  have b: "log 10 (1 / (10::real) ^ 10) = log 10 1 - log 10 (10 ^ 10)"
    by (rule log_divide_pos) simp_all
  from a b have depth: "10 * log 10 (?ts ! 1 + 1 / 10 ^ 10) \<le> - 5" by simp
  have far: "\<forall>j\<in>set ?S. j \<noteq> 1 \<longrightarrow> 20 \<le> index_distance 1 j"
    using only by blast
  have "0 < (1::nat) \<and> 1 + 1 < length ?ts \<and>
            ?ts ! 1 < ?ts ! (1 - 1) \<and> ?ts ! 1 < ?ts ! (1 + 1)" by simp
  with depth far iff[of 1] have mem: "1 \<in> set ?S" by blast
  from srt have dist: "distinct ?S" by (simp add: strict_sorted_iff)
  have S: "?S = [1]"
  proof (cases ?S)
    case Nil
    with mem show ?thesis by simp
  next
    case (Cons y ys)
    with only[of y] have y: "y = 1" by simp
    have "ys = []"
    proof (cases ys)
      case Nil
      then show ?thesis .
    next
      case (Cons z zs)
      with \<open>?S = y # ys\<close> only[of z] have "z = 1" by simp
      with Cons \<open>?S = y # ys\<close> y dist show ?thesis by simp
    qed
    with Cons y show ?thesis by simp
  qed
  then show ?thesis by simp
qed

end
